theory Spec2Isabelle
  imports Main "HOL-Library.Word"
begin

unbundle bit_operations_syntax

section \<open>Data model\<close>

text \<open>
  The harness \<^verbatim>\<open>test-python-parser.py\<close> reads a save image, asks the extractors for the
  raw party and box slots, decodes every non-empty slot, groups the box records in
  chunks of 30 consumed slots and converts every record to a dictionary.

  Bytes are 8-bit words. Every Python exception is a value of \<open>error\<close>; a call that may
  raise returns \<open>error + 'a\<close> with \<open>Inl\<close> for the exception.
\<close>

type_synonym byte = "8 word"
type_synonym bytes = "byte list"

datatype decode_error = Checksum | Corrupt

datatype error = OSError | CorruptImage | DecodeError decode_error | LookupFailure

text \<open>
  A raw slot as the extractor hands it to the harness: \<open>None\<close> or a bytes object. The
  harness only tests its truth value (\<^verbatim>\<open>if p:\<close>): \<open>None\<close> and the empty bytes object are
  false, every bytes object of positive length is true, whatever its bytes are.
\<close>

type_synonym slot = "bytes option"

fun truthy :: "slot \<Rightarrow> bool" where
  "truthy None = False"
| "truthy (Some bs) = (bs \<noteq> [])"

text \<open>The six named components of \<^verbatim>\<open>pkmn.ivs\<close> and \<^verbatim>\<open>pkmn.evs\<close>.\<close>

record stats =
  hp :: int
  attack :: int
  defense :: int
  special_attack :: int
  special_defense :: int
  speed :: int

text \<open>
  The attributes of a parsed Pokemon that the harness reads. \<^verbatim>\<open>gender\<close> is read with
  \<^verbatim>\<open>getattr(pkmn, 'gender', None)\<close>, so it is optional.
\<close>

record pokemon =
  species_id :: int
  level :: int
  ability_index :: int
  nature :: int
  move_ids :: "int list"
  held_item_id :: int
  ivs :: stats
  evs :: stats
  nickname :: string
  gender :: "string option"
  is_egg_flag :: bool
  has_ha_flag :: bool

text \<open>The dictionary \<^verbatim>\<open>pokemon_to_dict\<close> builds, one field per key.\<close>

record pokemon_dict =
  dict_species_id :: int
  dict_name :: string
  dict_level :: int
  dict_ability_index :: int
  dict_ability_name :: string
  dict_nature :: int
  dict_move_ids :: "int list"
  dict_move_names :: "string list"
  dict_held_item_id :: int
  dict_held_item_name :: string
  dict_ivs :: stats
  dict_evs :: stats
  dict_nickname :: string
  dict_gender :: "string option"
  dict_is_egg :: bool
  dict_has_hidden_ability :: bool

text \<open>The dictionary \<^verbatim>\<open>parse_sav_file\<close> returns.\<close>

record result =
  party :: "pokemon_dict list"
  boxes :: "pokemon_dict list list"
  total_pokemon :: int

text \<open>
  The diagnostics of the three exception handlers, in the order they are printed:
  \<^verbatim>\<open>Error parsing party slot i\<close>, \<^verbatim>\<open>Error parsing box slot i\<close> and
  \<^verbatim>\<open>Error parsing save file\<close>. The other printed lines carry no failure and are left out.
\<close>

datatype diagnostic =
  PartySlotError nat error
| BoxSlotError nat error
| SaveFileError error

text \<open>
  The modules the harness imports (\<^verbatim>\<open>save_file\<close>, \<^verbatim>\<open>pokemon_extractor\<close>,
  \<^verbatim>\<open>pokemon_parser\<close>, \<^verbatim>\<open>data_manager\<close>) and the file system are not part of the
  harness: they are parameters, each a function that may raise.
  \<open>pokemon_in_party\<close> stands for \<^verbatim>\<open>PartyPokemonExtractor(save.active_block).pokemon_in_party\<close>,
  \<open>pokemon_in_storage\<close> for
  \<^verbatim>\<open>BoxPokemonExtractor(save.active_block, save.expanded_block).pokemon_in_storage\<close>,
  \<open>party_parse\<close> and \<open>box_parse\<close> for the \<^verbatim>\<open>parse\<close> methods of the two parsers.
  \<open>lower\<close> stands for \<^verbatim>\<open>str.lower\<close>, whose case mapping covers every letter of
  Unicode and is not written out here.
\<close>

record ('save, 'dm) collaborators =
  read_file :: "string \<Rightarrow> error + bytes"
  SaveFile :: "bytes \<Rightarrow> error + 'save"
  pokemon_in_party :: "'save \<Rightarrow> error + slot list"
  party_parse :: "slot \<Rightarrow> error + pokemon"
  pokemon_in_storage :: "'save \<Rightarrow> error + slot list"
  box_parse :: "slot \<Rightarrow> error + pokemon"
  GameDataManager :: "error + 'dm"
  get_species_name :: "'dm \<Rightarrow> int \<Rightarrow> error + string"
  get_move_name :: "'dm \<Rightarrow> int \<Rightarrow> error + string"
  get_ability_name :: "'dm \<Rightarrow> int \<Rightarrow> string \<Rightarrow> bool \<Rightarrow> error + string"
  get_item_name :: "'dm \<Rightarrow> int \<Rightarrow> error + string"
  lower :: "string \<Rightarrow> string"

section \<open>The party loop\<close>

text \<open>
  Lines 36 to 44. One iteration: a false slot is skipped; a true slot is parsed, the
  record appended on success, a diagnostic printed on an exception. The state is the
  \<^verbatim>\<open>party\<close> list and the diagnostics printed so far. The line printed after the
  \<^verbatim>\<open>append\<close> reads \<^verbatim>\<open>species_id\<close> and \<^verbatim>\<open>level\<close>, which every record has, so
  only the parse itself can raise inside the \<^verbatim>\<open>try\<close>. The handler catches
  \<^verbatim>\<open>Exception\<close>, which is what \<open>error\<close> stands for.
\<close>

definition party_body ::
  "(slot \<Rightarrow> error + pokemon) \<Rightarrow> nat \<Rightarrow> slot \<Rightarrow> pokemon list \<times> diagnostic list
     \<Rightarrow> pokemon list \<times> diagnostic list" where
  "party_body parse i p st =
     (if truthy p then
        (case parse p of
           Inr pkmn \<Rightarrow> (fst st @ [pkmn], snd st)
         | Inl e \<Rightarrow> (fst st, snd st @ [PartySlotError i e]))
      else st)"

fun party_loop ::
  "(slot \<Rightarrow> error + pokemon) \<Rightarrow> nat \<Rightarrow> slot list \<Rightarrow> pokemon list \<times> diagnostic list
     \<Rightarrow> pokemon list \<times> diagnostic list" where
  "party_loop parse i [] st = st"
| "party_loop parse i (p # ps) st = party_loop parse (Suc i) ps (party_body parse i p st)"

definition parse_party ::
  "(slot \<Rightarrow> error + pokemon) \<Rightarrow> slot list \<Rightarrow> pokemon list \<times> diagnostic list" where
  "parse_party parse party_raw = party_loop parse 0 party_raw ([], [])"

section \<open>The box loop\<close>

text \<open>
  Lines 54 to 78. The state is \<^verbatim>\<open>boxes\<close>, \<^verbatim>\<open>current_box\<close>, \<^verbatim>\<open>pokemon_count\<close> and the
  diagnostics. Every iteration increments \<^verbatim>\<open>pokemon_count\<close>, whatever became of the slot,
  and closes the current box when the count is a multiple of 30.
\<close>

record box_state =
  st_boxes :: "pokemon list list"
  current_box :: "pokemon list"
  pokemon_count :: nat
  box_diags :: "diagnostic list"

definition box_body ::
  "(slot \<Rightarrow> error + pokemon) \<Rightarrow> nat \<Rightarrow> slot \<Rightarrow> box_state \<Rightarrow> box_state" where
  "box_body parse i p st =
     (let st1 =
            (if truthy p then
               (case parse p of
                  Inr pkmn \<Rightarrow> st\<lparr>current_box := current_box st @ [pkmn]\<rparr>
                | Inl e \<Rightarrow> st\<lparr>box_diags := box_diags st @ [BoxSlotError i e]\<rparr>)
             else st);
          st2 = st1\<lparr>pokemon_count := pokemon_count st1 + 1\<rparr>
      in if pokemon_count st2 mod 30 = 0
         then st2\<lparr>st_boxes := st_boxes st2 @ [current_box st2], current_box := []\<rparr>
         else st2)"

fun box_loop ::
  "(slot \<Rightarrow> error + pokemon) \<Rightarrow> nat \<Rightarrow> slot list \<Rightarrow> box_state \<Rightarrow> box_state" where
  "box_loop parse i [] st = st"
| "box_loop parse i (p # ps) st = box_loop parse (Suc i) ps (box_body parse i p st)"

definition box_init :: box_state where
  "box_init = \<lparr>st_boxes = [], current_box = [], pokemon_count = 0, box_diags = []\<rparr>"

text \<open>Lines 75 to 78: the last, partial box is added only when it holds a record.\<close>

definition parse_boxes ::
  "(slot \<Rightarrow> error + pokemon) \<Rightarrow> slot list \<Rightarrow> pokemon list list \<times> diagnostic list" where
  "parse_boxes parse box_raw =
     (let st = box_loop parse 0 box_raw box_init
      in (if current_box st \<noteq> [] then st_boxes st @ [current_box st] else st_boxes st,
          box_diags st))"

section \<open>Names and dictionaries\<close>

text \<open>A list comprehension whose body may raise: the first exception ends it.\<close>

fun traverse :: "('a \<Rightarrow> error + 'b) \<Rightarrow> 'a list \<Rightarrow> error + 'b list" where
  "traverse f [] = Inr []"
| "traverse f (x # xs) =
     (case f x of
        Inl e \<Rightarrow> Inl e
      | Inr y \<Rightarrow> (case traverse f xs of Inl e \<Rightarrow> Inl e | Inr ys \<Rightarrow> Inr (y # ys)))"

text \<open>
  Lines 89 to 104: the names of the party are looked up for display; the \<^verbatim>\<open>break\<close>
  leaves the loop after the first Pokemon.
\<close>

definition show_party ::
  "('save, 'dm) collaborators \<Rightarrow> 'dm \<Rightarrow> pokemon list \<Rightarrow> error + unit" where
  "show_party env dm party_list =
     (case party_list of
        [] \<Rightarrow> Inr ()
      | pkmn # _ \<Rightarrow>
          (case get_species_name env dm (species_id pkmn) of
             Inl e \<Rightarrow> Inl e
           | Inr _ \<Rightarrow> Inr ()))"

text \<open>Lines 106 to 113: the name of every box Pokemon is looked up for display.\<close>

definition show_boxes ::
  "('save, 'dm) collaborators \<Rightarrow> 'dm \<Rightarrow> pokemon list list \<Rightarrow> error + unit" where
  "show_boxes env dm box_list =
     (if list_ex (\<lambda>box. box \<noteq> []) box_list then
        (case traverse
                (\<lambda>box. if box \<noteq> []
                        then traverse (\<lambda>pkmn. get_species_name env dm (species_id pkmn)) box
                        else Inr [])
                box_list of
           Inl e \<Rightarrow> Inl e
         | Inr _ \<Rightarrow> Inr ())
      else Inr ())"

text \<open>Lines 116 to 161.\<close>

definition pokemon_to_dict ::
  "('save, 'dm) collaborators \<Rightarrow> 'dm \<Rightarrow> pokemon \<Rightarrow> error + pokemon_dict" where
  "pokemon_to_dict env dm pkmn =
     (case traverse (get_move_name env dm) (filter (\<lambda>move_id. move_id > 0) (move_ids pkmn)) of
        Inl e \<Rightarrow> Inl e
      | Inr move_names \<Rightarrow>
     (case get_species_name env dm (species_id pkmn) of
        Inl e \<Rightarrow> Inl e
      | Inr species_name \<Rightarrow>
     (case get_ability_name env dm (ability_index pkmn) species_name (has_ha_flag pkmn) of
        Inl e \<Rightarrow> Inl e
      | Inr ability_name \<Rightarrow>
     (case get_item_name env dm (held_item_id pkmn) of
        Inl e \<Rightarrow> Inl e
      | Inr item_name \<Rightarrow>
     (case get_species_name env dm (species_id pkmn) of
        Inl e \<Rightarrow> Inl e
      | Inr name \<Rightarrow>
          Inr \<lparr>dict_species_id = species_id pkmn,
               dict_name = lower env name,
               dict_level = level pkmn,
               dict_ability_index = ability_index pkmn,
               dict_ability_name = ability_name,
               dict_nature = nature pkmn,
               dict_move_ids = move_ids pkmn,
               dict_move_names = move_names,
               dict_held_item_id = held_item_id pkmn,
               dict_held_item_name = item_name,
               dict_ivs = \<lparr>hp = hp (ivs pkmn), attack = attack (ivs pkmn),
                           defense = defense (ivs pkmn),
                           special_attack = special_attack (ivs pkmn),
                           special_defense = special_defense (ivs pkmn),
                           speed = speed (ivs pkmn)\<rparr>,
               dict_evs = \<lparr>hp = hp (evs pkmn), attack = attack (evs pkmn),
                           defense = defense (evs pkmn),
                           special_attack = special_attack (evs pkmn),
                           special_defense = special_defense (evs pkmn),
                           speed = speed (evs pkmn)\<rparr>,
               dict_nickname = nickname pkmn,
               dict_gender = gender pkmn,
               dict_is_egg = is_egg_flag pkmn,
               dict_has_hidden_ability = has_ha_flag pkmn\<rparr>)))))"

section \<open>parse_sav_file\<close>

text \<open>
  The body of the \<^verbatim>\<open>try\<close> block, lines 20 to 185: the diagnostics printed so far and
  either the exception that left the block or the result.
\<close>

definition parse_sav_file_try ::
  "('save, 'dm) collaborators \<Rightarrow> string \<Rightarrow> diagnostic list \<times> (error + result)" where
  "parse_sav_file_try env sav_path =
     (case read_file env sav_path of
        Inl e \<Rightarrow> ([], Inl e)
      | Inr raw \<Rightarrow>
     (case SaveFile env raw of
        Inl e \<Rightarrow> ([], Inl e)
      | Inr save \<Rightarrow>
     (case pokemon_in_party env save of
        Inl e \<Rightarrow> ([], Inl e)
      | Inr party_raw \<Rightarrow>
     (let party_out = parse_party (party_parse env) party_raw;
          party_list = fst party_out;
          d1 = snd party_out
      in
     (case pokemon_in_storage env save of
        Inl e \<Rightarrow> (d1, Inl e)
      | Inr box_raw \<Rightarrow>
     (let box_out = parse_boxes (box_parse env) box_raw;
          box_list = fst box_out;
          d2 = d1 @ snd box_out
      in
     (case GameDataManager env of
        Inl e \<Rightarrow> (d2, Inl e)
      | Inr dm \<Rightarrow>
     (case show_party env dm party_list of
        Inl e \<Rightarrow> (d2, Inl e)
      | Inr _ \<Rightarrow>
     (case show_boxes env dm box_list of
        Inl e \<Rightarrow> (d2, Inl e)
      | Inr _ \<Rightarrow>
     (case traverse (pokemon_to_dict env dm) party_list of
        Inl e \<Rightarrow> (d2, Inl e)
      | Inr party_dicts \<Rightarrow>
     (case traverse (traverse (pokemon_to_dict env dm)) box_list of
        Inl e \<Rightarrow> (d2, Inl e)
      | Inr boxes_dicts \<Rightarrow>
          (d2, Inr \<lparr>party = party_dicts,
                    boxes = boxes_dicts,
                    total_pokemon =
                      int (length party_list) + sum_list (map (\<lambda>box. int (length box)) box_list)\<rparr>
          ))))))))))))"

text \<open>
  Lines 187 to 189: an exception that leaves the \<^verbatim>\<open>try\<close> block is printed and raised
  again, unchanged.
\<close>

definition parse_sav_file ::
  "('save, 'dm) collaborators \<Rightarrow> string \<Rightarrow> diagnostic list \<times> (error + result)" where
  "parse_sav_file env sav_path =
     (case parse_sav_file_try env sav_path of
        (ds, Inl e) \<Rightarrow> (ds @ [SaveFileError e], Inl e)
      | (ds, Inr r) \<Rightarrow> (ds, Inr r))"

section \<open>Vocabulary of the properties\<close>

text \<open>
  What one slot contributes to the output: the record when the slot is true and its
  parse returns, nothing when the slot is false or its parse raises.
\<close>

definition decoded :: "(slot \<Rightarrow> error + pokemon) \<Rightarrow> slot \<Rightarrow> pokemon option" where
  "decoded parse p =
     (if truthy p then (case parse p of Inr pkmn \<Rightarrow> Some pkmn | Inl e \<Rightarrow> None) else None)"

text \<open>The records of a list of slots, in slot order.\<close>

definition records_of :: "(slot \<Rightarrow> error + pokemon) \<Rightarrow> slot list \<Rightarrow> pokemon list" where
  "records_of parse ps = List.map_filter (decoded parse) ps"

text \<open>The slots of box \<open>k\<close>: positions \<open>30 * k\<close> to \<open>30 * k + 29\<close> of the flat sequence.\<close>

definition group_slots :: "nat \<Rightarrow> 'a list \<Rightarrow> 'a list" where
  "group_slots k ps = take 30 (drop (30 * k) ps)"

text \<open>A record for the concrete instances below.\<close>

definition example_pokemon :: pokemon where
  "example_pokemon =
     \<lparr>species_id = 25, level = 12, ability_index = 0, nature = 3, move_ids = [84, 45, 0, 0],
      held_item_id = 0,
      ivs = \<lparr>hp = 31, attack = 0, defense = 17, special_attack = 5, special_defense = 9,
              speed = 31\<rparr>,
      evs = \<lparr>hp = 0, attack = 252, defense = 0, special_attack = 0, special_defense = 4,
              speed = 252\<rparr>,
      nickname = ''PIKA'', gender = None, is_egg_flag = False, has_ha_flag = False\<rparr>"

text \<open>
  Lower case for strings of ASCII characters, where it agrees with \<^verbatim>\<open>str.lower\<close>; used
  for the names of the concrete instances below, which are ASCII.
\<close>

definition ascii_lower_char :: "char \<Rightarrow> char" where
  "ascii_lower_char c =
     (let n = (of_char c :: nat) in if 65 \<le> n \<and> n \<le> 90 then char_of (n + 32) else c)"

definition ascii_lower :: "string \<Rightarrow> string" where
  "ascii_lower s = map ascii_lower_char s"

text \<open>Collaborators for the concrete instances below: every call returns.\<close>

definition example_env :: "(unit, unit) collaborators" where
  "example_env =
     \<lparr>read_file = (\<lambda>path. Inr [1, 2, 3]),
      SaveFile = (\<lambda>raw. Inr ()),
      pokemon_in_party = (\<lambda>save. Inr [Some [1], None]),
      party_parse = (\<lambda>p. Inr example_pokemon),
      pokemon_in_storage = (\<lambda>save. Inr [None, Some [2]]),
      box_parse = (\<lambda>p. Inr example_pokemon),
      GameDataManager = Inr (),
      get_species_name = (\<lambda>dm i. Inr ''Pikachu''),
      get_move_name = (\<lambda>dm i. Inr ''Tackle''),
      get_ability_name = (\<lambda>dm i s h. Inr ''Static''),
      get_item_name = (\<lambda>dm i. Inr ''Berry''),
      lower = ascii_lower\<rparr>"

section \<open>The slot extractor's emptiness test\<close>

text \<open>
  Modelled from the spec: the emptiness test of SlotExtractor (module
  \<^verbatim>\<open>pokemon_extractor\<close>, which is not among the sources). Section 4.2: a slot is empty
  if it is entirely zero bytes; any non-zero byte anywhere in the slot makes it a decode
  candidate.
\<close>

definition is_empty_slot :: "bytes \<Rightarrow> bool" where
  "is_empty_slot w = list_all (\<lambda>b. b = 0) w"

section \<open>The record decoder\<close>

text \<open>
  Modelled from the spec: the input of RecordDecoder (module \<^verbatim>\<open>pokemon_parser\<close>, which is
  not among the sources), section 4.3: the unencrypted header with the two 32-bit seed
  values and the stored 16-bit checksum, the header copies of level and nickname, and the
  encrypted payload. The spec gives no byte offsets for the header, so the header is a
  record of its fields.
\<close>

record raw_record =
  seed1 :: "32 word"
  seed2 :: "32 word"
  stored_checksum :: "16 word"
  header_level :: byte
  nickname_bytes :: bytes
  payload :: bytes

text \<open>Modelled from the spec: the four substructures of the payload (section 4.3).\<close>

datatype substructure = Growth | Attack | Condition | Miscellaneous

text \<open>
  Modelled from the spec: what the spec names but does not list. The permutation table
  (one ordering of the four substructures per index below 24), the in-game character
  encoding with its terminator value, and the species that have two regular abilities.
\<close>

record format_data =
  order_table :: "substructure list list"
  terminator :: byte
  decode_char :: "byte \<Rightarrow> char"
  two_abilities :: "int \<Rightarrow> bool"

text \<open>
  Modelled from the spec: the size of a substructure. The payload is four substructures
  of equal size; the size is that of the record format the spec describes, 12 bytes.
\<close>

definition sub_size :: nat where
  "sub_size = 12"

text \<open>
  Modelled from the spec: little-endian 16-bit and 32-bit words over bytes, and the bytes
  of a 32-bit word (the spec speaks of the 16-bit and 32-bit words of the payload; the
  byte order is the console's).
\<close>

definition le16 :: "byte \<Rightarrow> byte \<Rightarrow> 16 word" where
  "le16 a b = ucast a OR push_bit 8 (ucast b)"

text \<open>
  Modelled from the spec: a little-endian 32-bit word of the payload, from its four bytes.
\<close>

definition le32 :: "byte \<Rightarrow> byte \<Rightarrow> byte \<Rightarrow> byte \<Rightarrow> 32 word" where
  "le32 a b c d =
     ucast a OR push_bit 8 (ucast b) OR push_bit 16 (ucast c) OR push_bit 24 (ucast d)"

text \<open>
  Modelled from the spec: byte \<open>k\<close> of a 32-bit word, lowest first.
\<close>

definition byte_of :: "32 word \<Rightarrow> nat \<Rightarrow> byte" where
  "byte_of w k = ucast (drop_bit (8 * k) w)"

text \<open>
  Modelled from the spec: the 16-bit words of the payload that the checksum sums; a payload has
  an even number of bytes.
\<close>

fun words16 :: "bytes \<Rightarrow> 16 word list" where
  "words16 (a # b # rest) = le16 a b # words16 rest"
| "words16 _ = []"

text \<open>
  Modelled from the spec: the 32-bit words of the payload that the key is applied to; a payload
  is a whole number of words.
\<close>

fun words32 :: "bytes \<Rightarrow> 32 word list" where
  "words32 (a # b # c # d # rest) = le32 a b c d # words32 rest"
| "words32 _ = []"

text \<open>
  Modelled from the spec: the four bytes of a 32-bit word, lowest first.
\<close>

definition bytes_of32 :: "32 word \<Rightarrow> bytes" where
  "bytes_of32 w = [byte_of w 0, byte_of w 1, byte_of w 2, byte_of w 3]"

text \<open>
  Modelled from the spec: step 1 of the decode algorithm. The key is the XOR of the two
  seed values; it is applied to every 32-bit word of the encrypted payload.
\<close>

definition xor_key :: "raw_record \<Rightarrow> 32 word" where
  "xor_key r = seed1 r XOR seed2 r"

text \<open>
  Modelled from the spec: step 1, the key applied to every 32-bit word of the encrypted payload.
\<close>

definition decrypt :: "32 word \<Rightarrow> bytes \<Rightarrow> bytes" where
  "decrypt key p = concat (map (\<lambda>w. bytes_of32 (w XOR key)) (words32 p))"

text \<open>
  Modelled from the spec: step 3 of the decode algorithm, the wrapping sum of all 16-bit
  words of the decrypted payload.
\<close>

definition checksum16 :: "bytes \<Rightarrow> 16 word" where
  "checksum16 q = sum_list (words16 q)"

text \<open>
  Modelled from the spec: step 2. The physical order of the substructures is the entry of
  the permutation table at one seed value modulo 24. An index without an entry, or an
  entry that is not an ordering of the four substructures, is a permutation-table bug.
\<close>

definition substructure_order :: "format_data \<Rightarrow> raw_record \<Rightarrow> substructure list option" where
  "substructure_order fmt r =
     (let i = unat (seed1 r) mod 24
      in if i < length (order_table fmt)
            \<and> length (order_table fmt ! i) = 4 \<and> distinct (order_table fmt ! i)
         then Some (order_table fmt ! i) else None)"

text \<open>
  Modelled from the spec: the place of a substructure in the physical order of step 2.
\<close>

fun position_of :: "substructure \<Rightarrow> substructure list \<Rightarrow> nat" where
  "position_of s [] = 0"
| "position_of s (x # xs) = (if x = s then 0 else Suc (position_of s xs))"

text \<open>
  Modelled from the spec: the quarter of the decrypted payload that holds a substructure,
  given the physical order.
\<close>

definition substructure_bytes :: "substructure list \<Rightarrow> bytes \<Rightarrow> substructure \<Rightarrow> bytes" where
  "substructure_bytes ord q s = take sub_size (drop (sub_size * position_of s ord) q)"

text \<open>
  Modelled from the spec: an unsigned 16-bit field at an offset of a substructure.
\<close>

definition u16_at :: "bytes \<Rightarrow> nat \<Rightarrow> int" where
  "u16_at q k = uint (le16 (q ! k) (q ! Suc k))"

text \<open>
  Modelled from the spec: step 4, the packed 32-bit word of the Miscellaneous
  substructure. Six 5-bit fields with explicit shift and mask, in the fixed order hp,
  attack, defense, speed, special attack, special defense; then the egg-flag bit and the
  hidden-ability-flag bit.
\<close>

definition iv_field :: "32 word \<Rightarrow> nat \<Rightarrow> int" where
  "iv_field w k = uint (drop_bit (5 * k) w AND 31)"

text \<open>
  Modelled from the spec: step 4, the six individual values of the packed word, as a record of
  the six named components.
\<close>

definition unpack_ivs :: "32 word \<Rightarrow> stats" where
  "unpack_ivs w =
     \<lparr>hp = iv_field w 0, attack = iv_field w 1, defense = iv_field w 2,
      special_attack = iv_field w 4, special_defense = iv_field w 5, speed = iv_field w 3\<rparr>"

text \<open>
  Modelled from the spec: step 4, the egg-flag bit of the packed word, the bit after the six
  5-bit fields.
\<close>

definition egg_bit :: "32 word \<Rightarrow> bool" where
  "egg_bit w = bit w 30"

text \<open>
  Modelled from the spec: step 4, the hidden-ability-flag bit of the packed word, its last bit.
\<close>

definition hidden_ability_bit :: "32 word \<Rightarrow> bool" where
  "hidden_ability_bit w = bit w 31"

text \<open>
  Modelled from the spec: the six effort values of the Condition substructure, one byte
  each, passed through as stored, in the same fixed order as the individual values.
\<close>

definition unpack_evs :: "bytes \<Rightarrow> stats" where
  "unpack_evs c =
     \<lparr>hp = uint (c ! 0), attack = uint (c ! 1), defense = uint (c ! 2),
      special_attack = uint (c ! 4), special_defense = uint (c ! 5), speed = uint (c ! 3)\<rparr>"

text \<open>
  Modelled from the spec: the range of the individual values (section 3, 0 to 31). A value
  outside it after unpacking is \<open>Corrupt\<close> (section 4.3, edge cases).
\<close>

definition ivs_in_range :: "stats \<Rightarrow> bool" where
  "ivs_in_range s =
     list_all (\<lambda>v. 0 \<le> v \<and> v \<le> 31)
       [hp s, attack s, defense s, special_attack s, special_defense s, speed s]"

text \<open>
  Modelled from the spec: step 6, the nickname, decoded from the in-game encoding and
  trimmed at the terminator value.
\<close>

definition decode_nickname :: "format_data \<Rightarrow> bytes \<Rightarrow> string" where
  "decode_nickname fmt bs = map (decode_char fmt) (takeWhile (\<lambda>b. b \<noteq> terminator fmt) bs)"

text \<open>
  Modelled from the spec: step 5, the ability index. The hidden-ability flag selects the
  third ability; otherwise the low bit of the other seed value selects between the two
  regular abilities of a species that has two.
\<close>

definition ability_of :: "format_data \<Rightarrow> raw_record \<Rightarrow> int \<Rightarrow> bool \<Rightarrow> int" where
  "ability_of fmt r species ha =
     (if ha then 2 else if two_abilities fmt species then uint (seed2 r AND 1) else 0)"

text \<open>
  Modelled from the spec: \<^verbatim>\<open>decode\<close> of RecordDecoder, section 4.3, steps 1 to 6 in
  their order. A slot has a fixed size, so a payload that is not four substructures long
  is no record. The spec leaves the byte offsets inside a substructure open: species and
  held item are the first two 16-bit fields of Growth, the four move ids the first four
  16-bit fields of Attack, the effort values the first six bytes of Condition, and the
  packed word bytes 4 to 7 of Miscellaneous, as in the record format the spec describes.
  The first seed value gives the order and the nature, the second the ability bit. The
  fields of the record are those the harness reads.
\<close>

definition decode :: "format_data \<Rightarrow> raw_record \<Rightarrow> decode_error + pokemon" where
  "decode fmt r =
     (if length (payload r) \<noteq> 4 * sub_size then Inl Corrupt
      else
        let q = decrypt (xor_key r) (payload r) in
        (case substructure_order fmt r of
           None \<Rightarrow> Inl Corrupt
         | Some ord \<Rightarrow>
             if checksum16 q \<noteq> stored_checksum r then Inl Checksum
             else
               let g = substructure_bytes ord q Growth;
                   a = substructure_bytes ord q Attack;
                   c = substructure_bytes ord q Condition;
                   m = substructure_bytes ord q Miscellaneous;
                   w = le32 (m ! 4) (m ! 5) (m ! 6) (m ! 7);
                   iv = unpack_ivs w;
                   species = u16_at g 0
               in if \<not> ivs_in_range iv then Inl Corrupt
                  else
                    Inr \<lparr>species_id = species,
                         level = uint (header_level r),
                         ability_index = ability_of fmt r species (hidden_ability_bit w),
                         nature = int (unat (seed1 r) mod 25),
                         move_ids = [u16_at a 0, u16_at a 2, u16_at a 4, u16_at a 6],
                         held_item_id = u16_at g 2,
                         ivs = iv,
                         evs = unpack_evs c,
                         nickname = decode_nickname fmt (nickname_bytes r),
                         gender = None,
                         is_egg_flag = egg_bit w,
                         has_ha_flag = hidden_ability_bit w\<rparr>))"

text \<open>
  A format and an encrypted record for the concrete instances below: the table of the 24
  orderings in lexicographic order, and a record with seed values \<open>0x19\<close> and
  \<open>0x01020304\<close>, so with key \<open>0x0102031D\<close>, table index 1 and checksum 50857.
\<close>

definition example_format :: format_data where
  "example_format =
     \<lparr>order_table =
        [[Growth, Attack, Condition, Miscellaneous], [Growth, Attack, Miscellaneous, Condition],
         [Growth, Condition, Attack, Miscellaneous], [Growth, Condition, Miscellaneous, Attack],
         [Growth, Miscellaneous, Attack, Condition], [Growth, Miscellaneous, Condition, Attack],
         [Attack, Growth, Condition, Miscellaneous], [Attack, Growth, Miscellaneous, Condition],
         [Attack, Condition, Growth, Miscellaneous], [Attack, Condition, Miscellaneous, Growth],
         [Attack, Miscellaneous, Growth, Condition], [Attack, Miscellaneous, Condition, Growth],
         [Condition, Growth, Attack, Miscellaneous], [Condition, Growth, Miscellaneous, Attack],
         [Condition, Attack, Growth, Miscellaneous], [Condition, Attack, Miscellaneous, Growth],
         [Condition, Miscellaneous, Growth, Attack], [Condition, Miscellaneous, Attack, Growth],
         [Miscellaneous, Growth, Attack, Condition], [Miscellaneous, Growth, Condition, Attack],
         [Miscellaneous, Attack, Growth, Condition], [Miscellaneous, Attack, Condition, Growth],
         [Miscellaneous, Condition, Growth, Attack], [Miscellaneous, Condition, Attack, Growth]],
      terminator = 255,
      decode_char = (\<lambda>b. char_of (unat b)),
      two_abilities = (\<lambda>species. True)\<rparr>"

definition example_record :: raw_record where
  "example_record =
     \<lparr>seed1 = 25, seed2 = 16909060, stored_checksum = 50857, header_level = 12,
      nickname_bytes = [80, 73, 75, 65, 255, 0, 0, 0, 0, 0],
      payload =
        [4, 3, 137, 1, 245, 0, 2, 1, 29, 69, 2, 1, 73, 3, 47, 1, 29, 3, 2, 1, 3, 43, 2, 1,
         29, 2, 2, 1, 2, 199, 93, 147, 29, 3, 2, 1, 29, 255, 2, 253, 29, 7, 2, 1, 29, 3, 2, 1]\<rparr>"

text \<open>A parser that raises on every slot, for the concrete instances below.\<close>

definition raising_parse :: "slot \<Rightarrow> error + pokemon" where
  "raising_parse p = Inl (DecodeError Checksum)"

text \<open>
  The record whose header fields and payload bytes are all zero, for the concrete
  instances below.
\<close>

definition zero_record :: raw_record where
  "zero_record =
     \<lparr>seed1 = 0, seed2 = 0, stored_checksum = 0, header_level = 0,
      nickname_bytes = [0, 0, 0, 0, 0, 0, 0, 0, 0, 0],
      payload =
        [0, 0, 0, 0, 0, 0, 0, 0, 0, 0, 0, 0, 0, 0, 0, 0, 0, 0, 0, 0, 0, 0, 0, 0,
         0, 0, 0, 0, 0, 0, 0, 0, 0, 0, 0, 0, 0, 0, 0, 0, 0, 0, 0, 0, 0, 0, 0, 0]\<rparr>"

section \<open>Lemmas about the loops\<close>

lemma party_loop_append:
  "party_loop parse i (ps @ qs) st = party_loop parse (i + length ps) qs (party_loop parse i ps st)"
  by (induction ps arbitrary: i st) simp_all

lemma records_of_Nil [simp]: "records_of parse [] = []"
  by (simp add: records_of_def)

lemma records_of_Cons:
  "records_of parse (p # ps) =
     (case decoded parse p of None \<Rightarrow> records_of parse ps | Some r \<Rightarrow> r # records_of parse ps)"
  by (simp add: records_of_def split: option.splits)

lemma records_of_append [simp]:
  "records_of parse (ps @ qs) = records_of parse ps @ records_of parse qs"
  by (simp add: records_of_def map_filter_def)

lemma records_of_single:
  "records_of parse [p] = (case decoded parse p of None \<Rightarrow> [] | Some r \<Rightarrow> [r])"
  by (simp add: records_of_Cons split: option.splits)

lemma party_body_fst:
  "fst (party_body parse i p st) = fst st @ records_of parse [p]"
  by (simp add: party_body_def records_of_single decoded_def split: sum.splits)

lemma party_loop_fst:
  "fst (party_loop parse i ps st) = fst st @ records_of parse ps"
proof (induction ps arbitrary: i st)
  case Nil
  show ?case by simp
next
  case (Cons p ps)
  have "records_of parse (p # ps) = records_of parse [p] @ records_of parse ps"
    using records_of_append [of parse "[p]" ps] by simp
  then show ?case by (simp add: Cons.IH party_body_fst)
qed

lemma parse_party_fst: "fst (parse_party parse ps) = records_of parse ps"
  by (simp add: parse_party_def party_loop_fst)

lemma box_loop_append:
  "box_loop parse i (ps @ qs) st = box_loop parse (i + length ps) qs (box_loop parse i ps st)"
  by (induction ps arbitrary: i st) simp_all

lemma box_loop_snoc:
  "box_loop parse i (ps @ [p]) st = box_body parse (i + length ps) p (box_loop parse i ps st)"
  by (simp add: box_loop_append)

lemma box_body_count: "pokemon_count (box_body parse i p st) = Suc (pokemon_count st)"
  by (simp add: box_body_def Let_def split: sum.splits)

lemma box_loop_count: "pokemon_count (box_loop parse i ps st) = pokemon_count st + length ps"
  by (induction ps arbitrary: i st) (simp_all add: box_body_count)

lemma box_body_current:
  "current_box (box_body parse i p st) =
     (if Suc (pokemon_count st) mod 30 = 0 then [] else current_box st @ records_of parse [p])"
  by (simp add: box_body_def Let_def records_of_single decoded_def split: sum.splits)

lemma box_body_boxes:
  "st_boxes (box_body parse i p st) =
     (if Suc (pokemon_count st) mod 30 = 0
      then st_boxes st @ [current_box st @ records_of parse [p]] else st_boxes st)"
  by (simp add: box_body_def Let_def records_of_single decoded_def split: sum.splits)

lemma group_slots_snoc_old:
  assumes "k < length ps div 30"
  shows "group_slots k (ps @ [p]) = group_slots k ps"
proof -
  from assms have "30 * k + 30 \<le> length ps" by arith
  then show ?thesis by (simp add: group_slots_def)
qed

lemma group_slots_snoc_last:
  assumes "Suc (length ps) mod 30 = 0"
  shows "group_slots (length ps div 30) (ps @ [p]) = drop (30 * (length ps div 30)) ps @ [p]"
proof -
  have le: "30 * (length ps div 30) \<le> length ps" by simp
  have "length ps - 30 * (length ps div 30) = 29" using assms by presburger
  then show ?thesis using le by (simp add: group_slots_def)
qed

lemma box_loop_invariant:
  "st_boxes (box_loop parse i ps box_init) =
      map (\<lambda>k. records_of parse (group_slots k ps)) [0..<length ps div 30]
   \<and> current_box (box_loop parse i ps box_init) =
      records_of parse (drop (30 * (length ps div 30)) ps)"
proof (induction ps rule: rev_induct)
  case Nil
  show ?case by (simp add: box_init_def)
next
  case (snoc p ps)
  let ?st = "box_loop parse i ps box_init"
  let ?n = "length ps"
  have cnt: "pokemon_count ?st = ?n" by (simp add: box_loop_count box_init_def)
  have ihb: "st_boxes ?st = map (\<lambda>k. records_of parse (group_slots k ps)) [0..<?n div 30]"
    using snoc by simp
  have ihc: "current_box ?st = records_of parse (drop (30 * (?n div 30)) ps)"
    using snoc by simp
  have old: "map (\<lambda>k. records_of parse (group_slots k (ps @ [p]))) [0..<?n div 30]
           = map (\<lambda>k. records_of parse (group_slots k ps)) [0..<?n div 30]"
    by (rule map_cong) (simp_all add: group_slots_snoc_old)
  have le: "30 * (?n div 30) \<le> ?n" by simp
  show ?case
  proof (cases "Suc ?n mod 30 = 0")
    case True
    then have d: "Suc ?n div 30 = Suc (?n div 30)" by (simp add: div_Suc)
    have dr: "drop (30 * Suc (?n div 30)) (ps @ [p]) = []"
    proof -
      have "30 * Suc (?n div 30) = Suc ?n" using True by presburger
      then show ?thesis by simp
    qed
    have b: "st_boxes (box_loop parse i (ps @ [p]) box_init) =
             st_boxes ?st @ [current_box ?st @ records_of parse [p]]"
      by (simp add: box_loop_snoc box_body_boxes cnt True)
    have c: "current_box (box_loop parse i (ps @ [p]) box_init) = []"
      by (simp add: box_loop_snoc box_body_current cnt True)
    have l: "records_of parse (group_slots (?n div 30) (ps @ [p])) =
             current_box ?st @ records_of parse [p]"
      by (simp add: group_slots_snoc_last [OF True] ihc)
    have "map (\<lambda>k. records_of parse (group_slots k (ps @ [p]))) [0..<Suc (?n div 30)]
          = st_boxes ?st @ [current_box ?st @ records_of parse [p]]"
      by (simp add: old ihb l)
    then show ?thesis using b c d dr by simp
  next
    case False
    then have d: "Suc ?n div 30 = ?n div 30" by (simp add: div_Suc)
    have b: "st_boxes (box_loop parse i (ps @ [p]) box_init) = st_boxes ?st"
      by (simp add: box_loop_snoc box_body_boxes cnt False)
    have c: "current_box (box_loop parse i (ps @ [p]) box_init) =
             current_box ?st @ records_of parse [p]"
      by (simp add: box_loop_snoc box_body_current cnt False)
    have dr: "drop (30 * (?n div 30)) (ps @ [p]) = drop (30 * (?n div 30)) ps @ [p]"
      using le by simp
    show ?thesis using b c d by (simp add: old ihb ihc dr)
  qed
qed

lemma box_body_records:
  "concat (st_boxes (box_body parse i p st)) @ current_box (box_body parse i p st) @ zs =
   concat (st_boxes st) @ current_box st @ records_of parse [p] @ zs"
  by (simp add: box_body_boxes box_body_current)

lemma box_loop_records:
  "concat (st_boxes (box_loop parse i ps st)) @ current_box (box_loop parse i ps st) =
   concat (st_boxes st) @ current_box st @ records_of parse ps"
proof (induction ps arbitrary: i st)
  case Nil
  show ?case by simp
next
  case (Cons p ps)
  have split: "records_of parse (p # ps) = records_of parse [p] @ records_of parse ps"
    using records_of_append [of parse "[p]" ps] by simp
  show ?case
    by (simp only: box_loop.simps Cons.IH box_body_records split)
qed

lemma parse_boxes_fst:
  "fst (parse_boxes parse ps) =
     map (\<lambda>k. records_of parse (group_slots k ps)) [0..<length ps div 30] @
     (if records_of parse (drop (30 * (length ps div 30)) ps) \<noteq> []
      then [records_of parse (drop (30 * (length ps div 30)) ps)] else [])"
  using box_loop_invariant [of parse 0 ps]
  by (simp add: parse_boxes_def Let_def)

lemma parse_boxes_concat: "concat (fst (parse_boxes parse ps)) = records_of parse ps"
proof -
  let ?st = "box_loop parse 0 ps box_init"
  have "concat (st_boxes ?st) @ current_box ?st = records_of parse ps"
    using box_loop_records [of parse 0 ps box_init] by (simp add: box_init_def)
  then show ?thesis
    by (cases "current_box ?st = []") (simp_all add: parse_boxes_def Let_def)
qed

lemma group_slots_last:
  "group_slots (length ps div 30) ps = drop (30 * (length ps div 30)) ps"
proof -
  have "length ps - 30 * (length ps div 30) = length ps mod 30"
    by (simp add: minus_mult_div_eq_mod mult.commute)
  then have "length (drop (30 * (length ps div 30)) ps) \<le> 30" by simp
  then show ?thesis unfolding group_slots_def by (rule take_all)
qed

lemma parse_boxes_length:
  "length (fst (parse_boxes parse ps)) =
     length ps div 30 +
     (if records_of parse (drop (30 * (length ps div 30)) ps) = [] then 0 else 1)"
  by (simp add: parse_boxes_fst)

lemma parse_boxes_nth:
  assumes "k < length (fst (parse_boxes parse ps))"
  shows "fst (parse_boxes parse ps) ! k = records_of parse (group_slots k ps)"
proof (cases "k < length ps div 30")
  case True
  then show ?thesis by (simp add: parse_boxes_fst nth_append)
next
  case False
  with assms have k: "k = length ps div 30"
    and ne: "records_of parse (drop (30 * (length ps div 30)) ps) \<noteq> []"
    by (auto simp add: parse_boxes_length split: if_splits)
  show ?thesis
    using ne by (simp add: parse_boxes_fst nth_append k group_slots_last)
qed

lemma records_of_all:
  "\<forall>p \<in> set ps. decoded parse p \<noteq> None \<Longrightarrow> length (records_of parse ps) = length ps"
  by (induction ps) (auto simp add: records_of_Cons split: option.splits)

lemma records_of_none:
  "\<forall>p \<in> set ps. decoded parse p = None \<Longrightarrow> records_of parse ps = []"
  by (induction ps) (auto simp add: records_of_Cons split: option.splits)


lemma traverse_length: "traverse f xs = Inr ys \<Longrightarrow> length ys = length xs"
  by (induction xs arbitrary: ys) (auto split: sum.splits)

lemma traverse_traverse_lengths:
  "traverse (traverse f) xss = Inr yss \<Longrightarrow> map length yss = map length xss"
  by (induction xss arbitrary: yss) (auto split: sum.splits dest: traverse_length)

lemma records_of_via_map: "records_of parse ps = List.map_filter id (map (decoded parse) ps)"
  by (induction ps) (simp_all add: records_of_Cons split: option.splits)

lemma records_of_group_cong:
  assumes "map (decoded parse) xs = map (decoded parse') ys"
  shows "records_of parse (take n (drop m xs)) = records_of parse' (take n (drop m ys))"
proof -
  have "map (decoded parse) (take n (drop m xs)) = map (decoded parse') (take n (drop m ys))"
    by (simp only: take_map [symmetric] drop_map [symmetric] assms)
  then show ?thesis by (simp only: records_of_via_map)
qed

lemma parse_boxes_cong:
  assumes "map (decoded parse) xs = map (decoded parse') ys"
  shows "fst (parse_boxes parse xs) = fst (parse_boxes parse' ys)"
proof -
  have len: "length xs = length ys" using assms by (rule map_eq_imp_length_eq)
  have g: "\<And>k. records_of parse (group_slots k xs) = records_of parse' (group_slots k ys)"
    unfolding group_slots_def by (rule records_of_group_cong [OF assms])
  have d: "records_of parse (drop (30 * (length ys div 30)) xs) =
           records_of parse' (drop (30 * (length ys div 30)) ys)"
    using records_of_group_cong [OF assms, of "length xs" "30 * (length ys div 30)"] len
    by simp
  show ?thesis by (simp add: parse_boxes_fst len g d)
qed

lemma decoded_failed: "truthy bad \<Longrightarrow> parse bad = Inl e \<Longrightarrow> decoded parse bad = None"
  by (simp add: decoded_def)

lemma decoded_falsy: "\<not> truthy p \<Longrightarrow> decoded parse p = None"
  by (simp add: decoded_def)

lemma records_of_skip:
  "decoded parse p = None \<Longrightarrow>
   records_of parse (pre @ p # post) = records_of parse pre @ records_of parse post"
  by (simp add: records_of_Cons)

section \<open>Failure isolation\<close>

text \<open>
  Claim C1. When the parse of one slot raises an exception, the batch goes on: for the
  party, the output is the output of the slots before the failed one followed by the
  output of the slots after it; for the boxes, the records are those of the slots before
  and after, and the box-groups are exactly those of the same sequence with an empty slot
  in the place of the failed one. The failed slot leaves no record and nothing stands in
  for it.
\<close>

theorem slot_failure_is_isolated:
  assumes "truthy bad" and "parse bad = Inl e"
  shows "fst (parse_party parse (pre @ bad # post)) =
           fst (parse_party parse pre) @ fst (parse_party parse post)
       \<and> concat (fst (parse_boxes parse (pre @ bad # post))) =
           concat (fst (parse_boxes parse pre)) @ concat (fst (parse_boxes parse post))
       \<and> fst (parse_boxes parse (pre @ bad # post)) = fst (parse_boxes parse (pre @ None # post))"
proof -
  have none: "decoded parse bad = None" using assms by (rule decoded_failed)
  have a: "fst (parse_party parse (pre @ bad # post)) =
           fst (parse_party parse pre) @ fst (parse_party parse post)"
    by (simp only: parse_party_fst records_of_skip [OF none])
  have b: "concat (fst (parse_boxes parse (pre @ bad # post))) =
           concat (fst (parse_boxes parse pre)) @ concat (fst (parse_boxes parse post))"
    by (simp only: parse_boxes_concat records_of_skip [OF none])
  have "map (decoded parse) (pre @ bad # post) = map (decoded parse) (pre @ None # post)"
    by (simp add: none decoded_falsy)
  then have c: "fst (parse_boxes parse (pre @ bad # post)) =
                fst (parse_boxes parse (pre @ None # post))"
    by (rule parse_boxes_cong)
  from a b c show ?thesis by simp
qed

theorem slot_failure_is_isolated_witness:
  "fst (parse_party (\<lambda>p. if p = Some [0, 1] then Inl (DecodeError Checksum) else Inr example_pokemon)
         ([Some [1]] @ Some [0, 1] # [Some [2], Some [3]])) =
     [example_pokemon, example_pokemon, example_pokemon]
   \<and> fst (parse_boxes (\<lambda>p. if p = Some [0, 1] then Inl (DecodeError Checksum) else Inr example_pokemon)
         ([Some [1]] @ Some [0, 1] # [Some [2], Some [3]])) =
     [[example_pokemon, example_pokemon, example_pokemon]]"
proof -
  let ?parse = "\<lambda>p::slot. if p = Some [0, 1] then Inl (DecodeError Checksum) else Inr example_pokemon"
  have t: "truthy (Some [0, 1])" by simp
  have f: "?parse (Some [0, 1]) = Inl (DecodeError Checksum)" by simp
  note w = slot_failure_is_isolated [of "Some [0, 1]" ?parse "DecodeError Checksum" "[Some [1]]" "[Some [2], Some [3]]", OF t f]
  have p1: "fst (parse_party ?parse [Some [1]]) = [example_pokemon]"
    by (simp add: parse_party_def party_body_def)
  have p2: "fst (parse_party ?parse [Some [2], Some [3]]) = [example_pokemon, example_pokemon]"
    by (simp add: parse_party_def party_body_def)
  have b: "fst (parse_boxes ?parse ([Some [1]] @ None # [Some [2], Some [3]])) =
           [[example_pokemon, example_pokemon, example_pokemon]]"
    by (simp add: parse_boxes_def box_body_def box_init_def Let_def)
  from w p1 p2 b show ?thesis by simp
qed

lemma decoded_ok: "truthy p \<Longrightarrow> parse p = Inr r \<Longrightarrow> decoded parse p = Some r"
  by (simp add: decoded_def)

lemma records_of_set:
  "set (records_of parse ps) = {r. \<exists>p \<in> set ps. decoded parse p = Some r}"
  by (induction ps) (auto simp add: records_of_Cons split: option.splits)

lemma length_group_slots: "length (group_slots k ps) = min 30 (length ps - 30 * k)"
  by (simp add: group_slots_def)

lemma set_group_slots: "set (group_slots k ps) \<subseteq> set ps"
  unfolding group_slots_def using set_take_subset set_drop_subset by fast

section \<open>Box chunking\<close>

text \<open>
  Claim C2. A flat sequence of exactly 65 populated box slots that all parse gives
  exactly three box-groups, of sizes 30, 30 and 5, in that order.
\<close>

theorem box_chunking_65:
  assumes len: "length ps = 65"
    and ok: "\<forall>p \<in> set ps. truthy p \<and> (\<exists>r. parse p = Inr r)"
  shows "map length (fst (parse_boxes parse ps)) = [30, 30, 5]"
proof -
  have dec: "\<forall>p \<in> set ps. decoded parse p \<noteq> None"
    using ok by (auto simp add: decoded_ok)
  have full: "\<And>qs. set qs \<subseteq> set ps \<Longrightarrow> length (records_of parse qs) = length qs"
    using dec by (intro records_of_all) blast
  have g0: "length (records_of parse (group_slots 0 ps)) = 30"
    using full [OF set_group_slots, of 0] len by (simp add: length_group_slots)
  have g1: "length (records_of parse (group_slots (Suc 0) ps)) = 30"
    using full [OF set_group_slots, of "Suc 0"] len by (simp add: length_group_slots)
  have g2: "length (records_of parse (drop 60 ps)) = 5"
    using full [OF set_drop_subset, of 60] len by simp
  then have ne: "records_of parse (drop 60 ps) \<noteq> []" by auto
  have up: "[0..<2] = [0, Suc 0]" by (simp add: upt_rec)
  show ?thesis
    by (simp add: parse_boxes_fst len up g0 g1 g2 ne)
qed

theorem box_chunking_65_witness:
  "map length (fst (parse_boxes (\<lambda>p. Inr example_pokemon) (replicate 65 (Some [1])))) = [30, 30, 5]"
proof -
  have len: "length (replicate 65 (Some [1 :: byte])) = 65" by simp
  have ok: "\<forall>p \<in> set (replicate 65 (Some [1 :: byte])).
              truthy p \<and> (\<exists>r. (\<lambda>p. Inr example_pokemon :: error + pokemon) p = Inr r)"
    by simp
  show ?thesis by (rule box_chunking_65 [OF len ok])
qed

lemma group_slots_update_other:
  assumes "k \<noteq> i div 30"
  shows "group_slots k (ps[i := q]) = group_slots k ps"
proof (cases "i < 30 * k")
  case True
  then show ?thesis by (simp add: group_slots_def drop_update_cancel)
next
  case False
  with assms have "30 * k + 30 \<le> i" by arith
  then have "30 * k \<le> i" and "30 \<le> i - 30 * k" by arith+
  then show ?thesis
    by (simp add: group_slots_def drop_update_swap take_update_cancel)
qed

lemma nth_in_group_slots:
  assumes "i < length ps"
  shows "ps ! i \<in> set (group_slots (i div 30) ps)"
proof -
  have i: "i = 30 * (i div 30) + i mod 30" by simp
  have m: "i mod 30 < 30" by simp
  have l: "i mod 30 < length (drop (30 * (i div 30)) ps)"
    using assms by (simp add: less_diff_conv minus_mult_div_eq_mod) 
  have "group_slots (i div 30) ps ! (i mod 30) = ps ! i"
    using assms m l by (simp add: group_slots_def)
  moreover have "i mod 30 < length (group_slots (i div 30) ps)"
    using l m by (simp add: group_slots_def)
  ultimately show ?thesis by (metis nth_mem)
qed

lemma record_in_its_group:
  assumes "i < length ps" and "decoded parse (ps ! i) = Some r"
  shows "i div 30 < length (fst (parse_boxes parse ps))
       \<and> r \<in> set (fst (parse_boxes parse ps) ! (i div 30))"
proof -
  have r: "r \<in> set (records_of parse (group_slots (i div 30) ps))"
    using nth_in_group_slots [OF assms(1)] assms(2) by (auto simp add: records_of_set)
  have le: "i div 30 \<le> length ps div 30" using assms(1) by (simp add: div_le_mono)
  have k: "i div 30 < length (fst (parse_boxes parse ps))"
  proof (cases "i div 30 < length ps div 30")
    case True
    then show ?thesis by (simp add: parse_boxes_length)
  next
    case False
    with le have e: "i div 30 = length ps div 30" by simp
    from r have "records_of parse (drop (30 * (length ps div 30)) ps) \<noteq> []"
      by (auto simp add: e group_slots_last)
    then show ?thesis by (simp add: parse_boxes_length e)
  qed
  from k r show ?thesis by (simp add: parse_boxes_nth)
qed

section \<open>The 30-slot boundary\<close>

text \<open>
  Claim C3. Every consumed box slot counts toward the 30-slot boundary, whether it is
  empty, fails to decode or yields a record. Box-group \<open>k\<close> of the output holds exactly
  the records of the slots at positions \<open>30 * k\<close> to \<open>30 * k + 29\<close>; the record of
  slot \<open>i\<close> is in group \<open>i div 30\<close>; and putting any other slot (empty, failing or
  decodable) at position \<open>i\<close> leaves every group other than \<open>i div 30\<close> as it was.
\<close>

theorem every_slot_counts_toward_boundary:
  "(\<forall>k < length (fst (parse_boxes parse ps)).
       fst (parse_boxes parse ps) ! k = records_of parse (take 30 (drop (30 * k) ps)))
   \<and> (\<forall>i < length ps. \<forall>r. truthy (ps ! i) \<and> parse (ps ! i) = Inr r \<longrightarrow>
         i div 30 < length (fst (parse_boxes parse ps))
         \<and> r \<in> set (fst (parse_boxes parse ps) ! (i div 30)))
   \<and> (\<forall>i q k. k \<noteq> i div 30
         \<and> k < length (fst (parse_boxes parse ps))
         \<and> k < length (fst (parse_boxes parse (ps[i := q]))) \<longrightarrow>
         fst (parse_boxes parse (ps[i := q])) ! k = fst (parse_boxes parse ps) ! k)"
proof (intro conjI allI impI)
  fix k assume "k < length (fst (parse_boxes parse ps))"
  then show "fst (parse_boxes parse ps) ! k = records_of parse (take 30 (drop (30 * k) ps))"
    using parse_boxes_nth [of k parse ps] by (simp add: group_slots_def)
next
  fix i r assume "i < length ps" and "truthy (ps ! i) \<and> parse (ps ! i) = Inr r"
  then have "i div 30 < length (fst (parse_boxes parse ps))
       \<and> r \<in> set (fst (parse_boxes parse ps) ! (i div 30))"
    using record_in_its_group [of i ps parse r] by (simp add: decoded_ok)
  then show "i div 30 < length (fst (parse_boxes parse ps))"
    and "r \<in> set (fst (parse_boxes parse ps) ! (i div 30))" by simp_all
next
  fix i q k
  assume a: "k \<noteq> i div 30 \<and> k < length (fst (parse_boxes parse ps))
       \<and> k < length (fst (parse_boxes parse (ps[i := q])))"
  then show "fst (parse_boxes parse (ps[i := q])) ! k = fst (parse_boxes parse ps) ! k"
    by (simp add: parse_boxes_nth group_slots_update_other)
qed


theorem every_slot_counts_toward_boundary_witness:
  "fst (parse_boxes (\<lambda>p. Inr example_pokemon) (replicate 30 None @ [Some [1]])) ! 0 = []
   \<and> fst (parse_boxes (\<lambda>p. Inr example_pokemon) (replicate 30 None @ [Some [1]])) ! 1 =
       [example_pokemon]"
proof -
  let ?P = "\<lambda>p :: slot. Inr example_pokemon :: error + pokemon"
  let ?ps = "replicate 30 None @ [Some [1 :: byte]]"
  have none: "records_of ?P (replicate 30 None) = []"
    by (rule records_of_none) (simp add: decoded_def)
  have one: "records_of ?P [Some [1]] = [example_pokemon]"
    by (simp add: records_of_single decoded_def)
  have len: "length (fst (parse_boxes ?P ?ps)) = 2"
    by (simp add: parse_boxes_length one)
  have nth: "\<forall>k < length (fst (parse_boxes ?P ?ps)).
       fst (parse_boxes ?P ?ps) ! k = records_of ?P (take 30 (drop (30 * k) ?ps))"
    using every_slot_counts_toward_boundary [of ?P ?ps] by (rule conjunct1)
  have k0: "fst (parse_boxes ?P ?ps) ! 0 = records_of ?P (take 30 (drop (30 * 0) ?ps))"
    using nth len by simp
  have k1: "fst (parse_boxes ?P ?ps) ! 1 = records_of ?P (take 30 (drop (30 * 1) ?ps))"
    using nth len by simp
  show ?thesis
    using k0 k1 by (simp add: none one)
qed

section \<open>The trailing group\<close>

text \<open>
  Claim C9. The number of box-groups is the number of full 30-slot groups, each emitted
  whatever it holds, plus one for the trailing partial group when, and only when, that
  group holds a record. So 30 empty slots give one empty group, and 31 empty slots give
  one group as well, fewer than the two that rounding 31 / 30 up would give.
\<close>

theorem trailing_group_needs_a_record:
  "length (fst (parse_boxes parse ps)) =
     length ps div 30 +
     (if records_of parse (drop (30 * (length ps div 30)) ps) = [] then 0 else 1)
   \<and> fst (parse_boxes parse (replicate 30 None)) = [[]]
   \<and> fst (parse_boxes parse (replicate 31 None)) = [[]]
   \<and> length (fst (parse_boxes parse (replicate 31 None))) <
       (length (replicate 31 (None :: slot)) + 29) div 30"
proof -
  have none: "\<And>qs. set qs \<subseteq> {None} \<Longrightarrow> records_of parse qs = []"
    by (rule records_of_none) (auto simp add: decoded_def)
  have up: "[0..<Suc 0] = [0]" by simp
  have a: "fst (parse_boxes parse (replicate 30 None)) = [[]]"
    using none [of "group_slots 0 (replicate 30 None)"] set_group_slots [of 0 "replicate 30 None"]
    by (simp add: parse_boxes_fst)
  have b: "fst (parse_boxes parse (replicate 31 None)) = [[]]"
    using none [of "group_slots 0 (replicate 31 None)"] set_group_slots [of 0 "replicate 31 None"]
      none [of "drop 30 (replicate 31 None)"]
    by (simp add: parse_boxes_fst)
  show ?thesis
    by (simp only: parse_boxes_length a b) simp
qed

section \<open>The party\<close>



section \<open>A save image without a valid section\<close>

text \<open>
  Claim C6. When \<^verbatim>\<open>SaveFile\<close> raises on the bytes read, \<^verbatim>\<open>parse_sav_file\<close> raises
  that same exception: it is reported once and raised again, no party or box result is
  returned, and neither \<^verbatim>\<open>SaveFile\<close> nor any other collaborator is consulted
  again, since the outcome is the same for every extractor, parser and data manager.
\<close>

theorem corrupt_image_is_fatal:
  assumes "read_file env sav_path = Inr raw" and "SaveFile env raw = Inl e"
  shows "parse_sav_file env sav_path = ([SaveFileError e], Inl e)
       \<and> parse_sav_file
           (env\<lparr>pokemon_in_party := pip, party_parse := pp, pokemon_in_storage := pis,
                 box_parse := bp, GameDataManager := gdm, get_species_name := gsn,
                 get_move_name := gmn, get_ability_name := gan, get_item_name := gin,
                 lower := lw\<rparr>)
           sav_path = ([SaveFileError e], Inl e)"
  using assms by (simp add: parse_sav_file_def parse_sav_file_try_def)


theorem corrupt_image_is_fatal_witness:
  "parse_sav_file (example_env\<lparr>SaveFile := (\<lambda>raw. Inl CorruptImage)\<rparr>) ''radicalred.sav'' =
     ([SaveFileError CorruptImage], Inl CorruptImage)"
proof -
  let ?env = "example_env\<lparr>SaveFile := (\<lambda>raw. Inl CorruptImage)\<rparr>"
  have r: "read_file ?env ''radicalred.sav'' = Inr [1, 2, 3]" by (simp add: example_env_def)
  have s: "SaveFile ?env [1, 2, 3] = Inl CorruptImage" by simp
  show ?thesis using corrupt_image_is_fatal [OF r s] by (rule conjunct1)
qed

lemma sum_lengths_int:
  "sum_list (map (\<lambda>box. int (length box)) xss) = int (sum_list (map length xss))"
  by (induction xss) simp_all

lemma sum_lengths_cong:
  assumes "map length xss = map length yss"
  shows "sum_list (map (\<lambda>box. int (length box)) xss) = sum_list (map (\<lambda>box. int (length box)) yss)"
  by (simp only: sum_lengths_int assms)

lemma parse_sav_file_try_total:
  assumes "parse_sav_file_try env sav_path = (ds, Inr res)"
  shows "total_pokemon res =
           int (length (party res)) + sum_list (map (\<lambda>box. int (length box)) (boxes res))"
  using assms
  by (auto simp add: parse_sav_file_try_def Let_def split: sum.splits
      dest!: traverse_length traverse_traverse_lengths sum_lengths_cong)

lemma parse_sav_file_Inr:
  "parse_sav_file env sav_path = (ds, Inr res) \<Longrightarrow> parse_sav_file_try env sav_path = (ds, Inr res)"
  by (auto simp add: parse_sav_file_def split: prod.splits sum.splits)

section \<open>The total\<close>

text \<open>
  Claim C10. In the result of every parse that returns, \<open>total_pokemon\<close> is the number
  of party records plus the sum of the sizes of the box-groups of that same result.
\<close>

theorem total_pokemon_is_sum:
  assumes "parse_sav_file env sav_path = (ds, Inr res)"
  shows "total_pokemon res =
           int (length (party res)) + sum_list (map (\<lambda>box. int (length box)) (boxes res))"
  using assms by (intro parse_sav_file_try_total parse_sav_file_Inr)


lemma example_env_fields:
  "read_file example_env path = Inr [1, 2, 3]"
  "SaveFile example_env raw = Inr ()"
  "pokemon_in_party example_env save = Inr [Some [1], None]"
  "party_parse example_env = (\<lambda>p. Inr example_pokemon)"
  "pokemon_in_storage example_env save = Inr [None, Some [2]]"
  "box_parse example_env = (\<lambda>p. Inr example_pokemon)"
  "GameDataManager example_env = Inr ()"
  "get_species_name example_env dm i = Inr ''Pikachu''"
  "get_move_name example_env dm i = Inr ''Tackle''"
  "get_ability_name example_env dm i s h = Inr ''Static''"
  "get_item_name example_env dm i = Inr ''Berry''"
  by (simp_all add: example_env_def)

lemma example_env_dict: "\<exists>d. pokemon_to_dict example_env () example_pokemon = Inr d"
  by (simp add: pokemon_to_dict_def example_env_fields example_pokemon_def)

lemma example_env_party:
  "parse_party (\<lambda>p. Inr example_pokemon) [Some [1], None] = ([example_pokemon], [])"
  by (simp add: parse_party_def party_body_def)

lemma example_env_boxes:
  "parse_boxes (\<lambda>p. Inr example_pokemon) [None, Some [2]] = ([[example_pokemon]], [])"
  by (simp add: parse_boxes_def box_body_def box_init_def Let_def)

lemma example_env_parse:
  "\<exists>res. parse_sav_file example_env ''radicalred.sav'' = ([], Inr res)"
proof -
  obtain d where d: "pokemon_to_dict example_env () example_pokemon = Inr d"
    using example_env_dict by blast
  have s: "species_id example_pokemon = 25" by (simp add: example_pokemon_def)
  have "parse_sav_file_try example_env ''radicalred.sav'' =
          ([], Inr \<lparr>party = [d], boxes = [[d]], total_pokemon = 2\<rparr>)"
    by (simp add: parse_sav_file_try_def example_env_fields example_env_party
        example_env_boxes show_party_def show_boxes_def d s)
  then show ?thesis by (simp add: parse_sav_file_def)
qed

theorem total_pokemon_is_sum_witness:
  "\<exists>res. parse_sav_file example_env ''radicalred.sav'' = ([], Inr res)
       \<and> total_pokemon res =
           int (length (party res)) + sum_list (map (\<lambda>box. int (length box)) (boxes res))"
proof -
  obtain res where r: "parse_sav_file example_env ''radicalred.sav'' = ([], Inr res)"
    using example_env_parse by blast
  from total_pokemon_is_sum [OF r] r show ?thesis by blast
qed

lemma byte_of_le32_xor:
  "byte_of (le32 a b c d XOR key) 0 = a XOR byte_of key 0"
  "byte_of (le32 a b c d XOR key) 1 = b XOR byte_of key 1"
  "byte_of (le32 a b c d XOR key) 2 = c XOR byte_of key 2"
  "byte_of (le32 a b c d XOR key) 3 = d XOR byte_of key 3"
  by (auto simp add: byte_of_def le32_def bit_eq_iff bit_simps dest: bit_imp_le_length)

lemma le16_low: "ucast (le16 a b) = a"
  by (auto simp add: le16_def bit_eq_iff bit_simps dest: bit_imp_le_length)

lemma le16_high: "ucast (drop_bit 8 (le16 a b)) = b"
  by (auto simp add: le16_def bit_eq_iff bit_simps dest: bit_imp_le_length)


lemma le16_inject: "le16 a b = le16 c d \<longleftrightarrow> a = c \<and> b = d"
proof
  assume e: "le16 a b = le16 c d"
  have "a = c" using le16_low [of a b] le16_low [of c d] e by simp
  moreover have "b = d" using le16_high [of a b] le16_high [of c d] e by simp
  ultimately show "a = c \<and> b = d" by simp
qed simp

lemma words16_update_changes_sum:
  assumes "i < length q" and "even (length q)" and "c \<noteq> q ! i"
  shows "sum_list (words16 (q[i := c])) \<noteq> sum_list (words16 q)"
  using assms
proof (induction q arbitrary: i rule: words16.induct)
  case (1 a b rest)
  show ?case
  proof (cases i)
    case 0
    with "1.prems" show ?thesis by (simp add: le16_inject)
  next
    case (Suc j)
    show ?thesis
    proof (cases j)
      case 0
      with Suc "1.prems" show ?thesis by (simp add: le16_inject)
    next
      case (Suc k)
      with \<open>i = Suc j\<close> "1.prems" have "sum_list (words16 (rest[k := c])) \<noteq> sum_list (words16 rest)"
        by (intro "1.IH") simp_all
      with Suc \<open>i = Suc j\<close> show ?thesis by simp
    qed
  qed
qed simp_all

lemma decrypt_bytewise:
  assumes "length p mod 4 = 0"
  shows "decrypt key p = map (\<lambda>j. p ! j XOR byte_of key (j mod 4)) [0..<length p]"
  using assms
proof (induction p rule: words32.induct)
  case (1 a b c d rest)
  then have ih: "decrypt key rest = map (\<lambda>j. rest ! j XOR byte_of key (j mod 4)) [0..<length rest]"
    by (simp add: decrypt_def)
  have m: "\<And>j. Suc (Suc (Suc (Suc j))) mod 4 = j mod 4"
  proof -
    fix j :: nat
    have "Suc (Suc (Suc (Suc j))) = j + 4" by simp
    then show "Suc (Suc (Suc (Suc j))) mod 4 = j mod 4" by (simp only: mod_add_self2)
  qed
  have d: "decrypt key (a # b # c # d # rest) =
          bytes_of32 (le32 a b c d XOR key) @ decrypt key rest"
    by (simp add: decrypt_def)
  have b: "bytes_of32 (le32 a b c d XOR key) =
           [a XOR byte_of key 0, b XOR byte_of key 1, c XOR byte_of key 2, d XOR byte_of key 3]"
    by (simp only: bytes_of32_def byte_of_le32_xor)
  have s1: "Suc 0 mod 4 = (1::nat)" and s2: "Suc (Suc 0) mod 4 = (2::nat)"
    and s3: "Suc (Suc (Suc 0)) mod 4 = (3::nat)" by simp_all
  show ?case
    by (simp add: d b ih map_upt_Suc m s1 s2 s3 del: upt_Suc)
qed (simp_all add: decrypt_def)

lemma decrypt_length:
  "length p mod 4 = 0 \<Longrightarrow> length (decrypt key p) = length p"
  by (simp add: decrypt_bytewise)

lemma decrypt_update:
  assumes "length p mod 4 = 0" and "i < length p"
  shows "decrypt key (p[i := b]) = (decrypt key p)[i := b XOR byte_of key (i mod 4)]"
proof (rule nth_equalityI)
  show "length (decrypt key (p[i := b])) = length ((decrypt key p)[i := b XOR byte_of key (i mod 4)])"
    using assms by (simp add: decrypt_length)
next
  fix j assume "j < length (decrypt key (p[i := b]))"
  then have j: "j < length p" using assms by (simp add: decrypt_length)
  show "decrypt key (p[i := b]) ! j = (decrypt key p)[i := b XOR byte_of key (i mod 4)] ! j"
    using assms j by (cases "j = i") (simp_all add: decrypt_bytewise)
qed

lemma decrypt_nth:
  "length p mod 4 = 0 \<Longrightarrow> i < length p \<Longrightarrow> decrypt key p ! i = p ! i XOR byte_of key (i mod 4)"
  by (simp add: decrypt_bytewise)

lemma xor_right_inject: "(a :: byte) XOR k = b XOR k \<longleftrightarrow> a = b"
proof
  assume "a XOR k = b XOR k"
  then have "(a XOR k) XOR k = (b XOR k) XOR k" by simp
  then show "a = b" by (simp add: xor.assoc)
qed simp

lemma mutated_checksum_differs:
  assumes len: "length p = 4 * sub_size" and i: "i < length p" and b: "b \<noteq> p ! i"
  shows "checksum16 (decrypt key (p[i := b])) \<noteq> checksum16 (decrypt key p)"
proof -
  have m: "length p mod 4 = 0" using len by simp
  have l: "length (decrypt key p) = length p" using m by (rule decrypt_length)
  have ne: "b XOR byte_of key (i mod 4) \<noteq> decrypt key p ! i"
    using b by (simp add: decrypt_nth [OF m i] xor_right_inject)
  have ev: "even (length (decrypt key p))" using l len by (simp add: sub_size_def)
  have "sum_list (words16 ((decrypt key p)[i := b XOR byte_of key (i mod 4)])) \<noteq>
        sum_list (words16 (decrypt key p))"
    using i l ev ne by (intro words16_update_changes_sum) simp_all
  then show ?thesis by (simp add: checksum16_def decrypt_update [OF m i])
qed

lemma decode_Inr_facts:
  assumes "decode fmt r = Inr pk"
  shows "length (payload r) = 4 * sub_size"
    and "\<exists>ord. substructure_order fmt r = Some ord"
    and "checksum16 (decrypt (xor_key r) (payload r)) = stored_checksum r"
  using assms
  by (auto simp add: decode_def Let_def split: if_splits option.splits)

lemma iv_field_range: "0 \<le> iv_field w k \<and> iv_field w k \<le> 31"
proof -
  have "drop_bit (5 * k) w AND 31 \<le> 31" by (rule word_and_le1)
  then have "uint (drop_bit (5 * k) w AND 31) \<le> uint (31 :: 32 word)"
    by (simp only: word_le_def)
  then show ?thesis by (simp add: iv_field_def)
qed

lemma unpack_ivs_in_range: "ivs_in_range (unpack_ivs w)"
  by (simp add: ivs_in_range_def unpack_ivs_def iv_field_range)

lemma decode_ivs:
  assumes "decode fmt r = Inr pk"
  shows "\<exists>w. ivs pk = unpack_ivs w"
  using assms
  by (auto simp add: decode_def Let_def split: if_splits option.splits)

lemma pokemon_to_dict_ivs:
  assumes "pokemon_to_dict env dm pk = Inr d"
  shows "dict_ivs d = ivs pk"
  using assms
  by (auto simp add: pokemon_to_dict_def split: sum.splits)

lemma example_record_decrypt:
  "decrypt (xor_key example_record) (payload example_record) =
     [25, 0, 139, 0, 232, 3, 0, 0, 0, 70, 0, 0, 84, 0, 45, 0, 0, 0, 0, 0, 30,
      40, 0, 0, 0, 1, 0, 0, 31, 196, 95, 146, 0, 0, 0, 0, 0, 252, 0, 252, 0, 4,
      0, 0, 0, 0, 0, 0]"
  by (simp add: example_record_def xor_key_def decrypt_def bytes_of32_def byte_of_def le32_def)


lemma example_record_order:
  "substructure_order example_format example_record =
     Some [Growth, Attack, Miscellaneous, Condition]"
  by (simp add: substructure_order_def example_format_def example_record_def)

lemma example_record_decodes:
  "decode example_format example_record =
     Inr \<lparr>species_id = 25, level = 12, ability_index = 2, nature = 0,
          move_ids = [84, 45, 0, 0], held_item_id = 139,
          ivs = \<lparr>hp = 31, attack = 0, defense = 17, special_attack = 5,
                  special_defense = 9, speed = 31\<rparr>,
          evs = \<lparr>hp = 0, attack = 252, defense = 0, special_attack = 0,
                  special_defense = 4, speed = 252\<rparr>,
          nickname = ''PIKA'', gender = None, is_egg_flag = False, has_ha_flag = True\<rparr>"
proof -
  have len: "length (payload example_record) = 4 * sub_size"
    by (simp add: example_record_def sub_size_def)
  have hdr: "seed1 example_record = 25" "seed2 example_record = 16909060"
    "stored_checksum example_record = 50857" "header_level example_record = 12"
    "nickname_bytes example_record = [80, 73, 75, 65, 255, 0, 0, 0, 0, 0]"
    by (simp_all add: example_record_def)
  have fmt: "terminator example_format = 255" "decode_char example_format = (\<lambda>b. char_of (unat b))"
    "two_abilities example_format = (\<lambda>species. True)"
    by (simp_all add: example_format_def)
  have nick: "decode_nickname example_format [80, 73, 75, 65, 255, 0, 0, 0, 0, 0] = ''PIKA''"
    by (simp add: decode_nickname_def fmt char_of_def bit_iff_odd_drop_bit)
  show ?thesis
    unfolding decode_def Let_def example_record_decrypt example_record_order
    by (simp add: len hdr fmt nick checksum16_def le16_def le32_def substructure_bytes_def
        sub_size_def u16_at_def unpack_ivs_def iv_field_def ivs_in_range_def unpack_evs_def
        ability_of_def egg_bit_def hidden_ability_bit_def)
qed

section \<open>Checksum rejection\<close>

text \<open>
  Claim C7. For every record that decodes, changing any single byte of its encrypted
  payload, with the stored checksum left as it is, makes the decode fail with
  \<open>Checksum\<close>; it never returns a record.
\<close>

theorem checksum_rejects_mutation:
  assumes "decode fmt r = Inr pk" and "i < length (payload r)" and "b \<noteq> payload r ! i"
  shows "decode fmt (r\<lparr>payload := (payload r)[i := b]\<rparr>) = Inl Checksum"
proof -
  let ?r' = "r\<lparr>payload := (payload r)[i := b]\<rparr>"
  have len: "length (payload r) = 4 * sub_size"
    using assms(1) by (rule decode_Inr_facts)
  obtain ord where ord: "substructure_order fmt r = Some ord"
    using decode_Inr_facts(2) [OF assms(1)] by blast
  have chk: "checksum16 (decrypt (xor_key r) (payload r)) = stored_checksum r"
    using assms(1) by (rule decode_Inr_facts)
  have key: "xor_key ?r' = xor_key r" by (simp add: xor_key_def)
  have ord': "substructure_order fmt ?r' = Some ord"
    using ord by (simp add: substructure_order_def)
  have "checksum16 (decrypt (xor_key r) ((payload r)[i := b])) \<noteq> stored_checksum r"
    using mutated_checksum_differs [OF len assms(2) assms(3), of "xor_key r"] chk by simp
  then show ?thesis
    using len by (simp add: decode_def Let_def key ord')
qed

theorem checksum_rejects_mutation_witness:
  "decode example_format
     (example_record\<lparr>payload := (payload example_record)[5 := 1]\<rparr>) = Inl Checksum"
proof -
  have i: "5 < length (payload example_record)" by (simp add: example_record_def)
  have b: "(1 :: byte) \<noteq> payload example_record ! 5" by (simp add: example_record_def)
  show ?thesis
    by (rule checksum_rejects_mutation [OF example_record_decodes i b])
qed

section \<open>The individual values\<close>

text \<open>
  Claim C8. In every record the decoder returns, each of the six individual values (hp,
  attack, defense, special attack, special defense, speed) is between 0 and 31, and
  \<^verbatim>\<open>pokemon_to_dict\<close> copies the six values into the dictionary unchanged.
\<close>

theorem decoded_ivs_between_0_and_31:
  assumes "decode fmt r = Inr pk"
  shows "0 \<le> hp (ivs pk) \<and> hp (ivs pk) \<le> 31
       \<and> 0 \<le> attack (ivs pk) \<and> attack (ivs pk) \<le> 31
       \<and> 0 \<le> defense (ivs pk) \<and> defense (ivs pk) \<le> 31
       \<and> 0 \<le> special_attack (ivs pk) \<and> special_attack (ivs pk) \<le> 31
       \<and> 0 \<le> special_defense (ivs pk) \<and> special_defense (ivs pk) \<le> 31
       \<and> 0 \<le> speed (ivs pk) \<and> speed (ivs pk) \<le> 31
       \<and> (pokemon_to_dict env dm pk = Inr d \<longrightarrow> dict_ivs d = ivs pk)"
proof -
  obtain w where w: "ivs pk = unpack_ivs w"
    using decode_ivs [OF assms] by blast
  have "ivs_in_range (ivs pk)" unfolding w by (rule unpack_ivs_in_range)
  then show ?thesis
    by (simp add: ivs_in_range_def pokemon_to_dict_ivs)
qed

theorem decoded_ivs_between_0_and_31_witness:
  "\<exists>pk d. decode example_format example_record = Inr pk
     \<and> pokemon_to_dict example_env () pk = Inr d
     \<and> 0 \<le> hp (dict_ivs d) \<and> hp (dict_ivs d) \<le> 31
     \<and> 0 \<le> speed (dict_ivs d) \<and> speed (dict_ivs d) \<le> 31"
proof -
  let ?pk = "\<lparr>species_id = 25, level = 12, ability_index = 2, nature = 0,
          move_ids = [84, 45, 0, 0], held_item_id = 139,
          ivs = \<lparr>hp = 31, attack = 0, defense = 17, special_attack = 5,
                  special_defense = 9, speed = 31\<rparr>,
          evs = \<lparr>hp = 0, attack = 252, defense = 0, special_attack = 0,
                  special_defense = 4, speed = 252\<rparr>,
          nickname = ''PIKA'', gender = None, is_egg_flag = False, has_ha_flag = True\<rparr>"
  have pk: "decode example_format example_record = Inr ?pk" by (rule example_record_decodes)
  obtain d where d: "pokemon_to_dict example_env () ?pk = Inr d"
    by (simp add: pokemon_to_dict_def example_env_fields)
  note w = decoded_ivs_between_0_and_31 [OF pk, of example_env "()" d]
  from w d have "dict_ivs d = ivs ?pk" by blast
  with w pk d show ?thesis by (intro exI [of _ ?pk] exI [of _ d]) simp
qed

section \<open>Empty slots\<close>

text \<open>
  The harness tests only the truth value of a slot (\<^verbatim>\<open>if p:\<close>, lines 38 and 59). A
  bytes object of positive length is true whatever its bytes are, so an all-zero slot is
  handed to the parser like any other.
\<close>

lemma zero_bytes_are_truthy: "truthy (Some (replicate (Suc n) 0))"
  by simp

lemma truthy_slot_is_parsed:
  assumes "truthy p"
  shows "party_body parse i p st =
           (case parse p of
              Inr pkmn \<Rightarrow> (fst st @ [pkmn], snd st)
            | Inl e \<Rightarrow> (fst st, snd st @ [PartySlotError i e]))"
  using assms by (simp add: party_body_def)

text \<open>
  The checksum of the decoder does not reject the all-zero record: its key is zero, its
  decrypted payload is all zero, and the sum of its words is the stored checksum, zero.
\<close>

lemma zero_record_decodes:
  "\<exists>pk. decode example_format zero_record = Inr pk \<and> species_id pk = 0"
proof -
  have dec: "decrypt (xor_key zero_record) (payload zero_record) = payload zero_record"
    by (simp add: zero_record_def xor_key_def decrypt_def bytes_of32_def byte_of_def le32_def)
  have ord: "substructure_order example_format zero_record =
               Some [Growth, Attack, Condition, Miscellaneous]"
    by (simp add: substructure_order_def example_format_def zero_record_def)
  have len: "length (payload zero_record) = 4 * sub_size"
    by (simp add: zero_record_def sub_size_def)
  have chk: "checksum16 (payload zero_record) = stored_checksum zero_record"
    by (simp add: checksum16_def zero_record_def le16_def)
  have sp: "u16_at (substructure_bytes [Growth, Attack, Condition, Miscellaneous]
                      (payload zero_record) Growth) 0 = 0"
    by (simp add: u16_at_def substructure_bytes_def sub_size_def zero_record_def le16_def)
  show ?thesis
    unfolding decode_def Let_def dec ord
    by (simp add: len chk sp unpack_ivs_in_range)
qed

text \<open>
  Claim C4 as stated fails on the harness: the all-zero slot of four bytes is true for
  the harness, so a parser that returns gives a record for it, in the party and in the
  current box, and a parser that raises gives a diagnostic for it.
\<close>

theorem all_zero_slot_is_parsed:
  "is_empty_slot [0, 0, 0, 0]
   \<and> party_body (party_parse example_env) 0 (Some [0, 0, 0, 0]) ([], []) = ([example_pokemon], [])
   \<and> party_body raising_parse 3 (Some [0, 0, 0, 0]) ([], []) =
       ([], [PartySlotError 3 (DecodeError Checksum)])
   \<and> current_box (box_body (box_parse example_env) 0 (Some [0, 0, 0, 0]) box_init) =
       [example_pokemon]"
  by (simp add: is_empty_slot_def party_body_def box_body_def box_init_def Let_def
      example_env_def raising_parse_def)

text \<open>
  Claim C4, amended. A slot that is false for the harness (\<open>None\<close> or an empty bytes
  object) never yields a record and never raises an error. One iteration of the party
  loop leaves the party and the diagnostics as they are, whatever the parser would do;
  one iteration of the box loop leaves the records and the diagnostics as they are and
  only counts the slot; in a sequence, the output is that of the slots before followed
  by that of the slots after. An all-zero slot of positive length is true: it yields the
  record its parse returns, or the diagnostic of the exception its parse raises.
\<close>

theorem false_slot_is_skipped:
  assumes "\<not> truthy p"
  shows "party_body parse i p st = st
       \<and> box_diags (box_body parse i p bst) = box_diags bst
       \<and> concat (st_boxes (box_body parse i p bst)) @ current_box (box_body parse i p bst)
         = concat (st_boxes bst) @ current_box bst
       \<and> pokemon_count (box_body parse i p bst) = Suc (pokemon_count bst)
       \<and> parse_party parse (pre @ p # post) = parse_party parse (pre @ None # post)
       \<and> fst (parse_party parse (pre @ p # post)) =
           fst (parse_party parse pre) @ fst (parse_party parse post)
       \<and> concat (fst (parse_boxes parse (pre @ p # post))) =
           concat (fst (parse_boxes parse pre)) @ concat (fst (parse_boxes parse post))
       \<and> (is_empty_slot w \<and> w \<noteq> [] \<longrightarrow>
            party_body parse i (Some w) st =
              (case parse (Some w) of
                 Inr pkmn \<Rightarrow> (fst st @ [pkmn], snd st)
               | Inl e \<Rightarrow> (fst st, snd st @ [PartySlotError i e])))"
proof -
  have none: "decoded parse p = None" using assms by (rule decoded_falsy)
  have a: "party_body parse i p st = st" using assms by (simp add: party_body_def)
  have b: "box_diags (box_body parse i p bst) = box_diags bst"
    using assms by (simp add: box_body_def Let_def)
  have c: "concat (st_boxes (box_body parse i p bst)) @ current_box (box_body parse i p bst)
         = concat (st_boxes bst) @ current_box bst"
    using box_body_records [of parse i p bst "[]"] by (simp add: records_of_single none)
  have d: "pokemon_count (box_body parse i p bst) = Suc (pokemon_count bst)"
    by (rule box_body_count)
  have e: "fst (parse_party parse (pre @ p # post)) =
           fst (parse_party parse pre) @ fst (parse_party parse post)"
    by (simp only: parse_party_fst records_of_skip [OF none])
  have f: "concat (fst (parse_boxes parse (pre @ p # post))) =
           concat (fst (parse_boxes parse pre)) @ concat (fst (parse_boxes parse post))"
    by (simp only: parse_boxes_concat records_of_skip [OF none])
  have g: "parse_party parse (pre @ p # post) = parse_party parse (pre @ None # post)"
    using assms by (simp add: parse_party_def party_loop_append party_body_def)
  have h: "is_empty_slot w \<and> w \<noteq> [] \<longrightarrow>
            party_body parse i (Some w) st =
              (case parse (Some w) of
                 Inr pkmn \<Rightarrow> (fst st @ [pkmn], snd st)
               | Inl e \<Rightarrow> (fst st, snd st @ [PartySlotError i e]))"
    by (simp add: truthy_slot_is_parsed)
  from a b c d e f g h show ?thesis by simp
qed

theorem false_slot_is_skipped_witness:
  "parse_party (party_parse example_env) ([Some [7]] @ Some [] # [Some [8]]) =
     ([example_pokemon, example_pokemon], [])
   \<and> party_body (party_parse example_env) 3 (Some []) ([example_pokemon], []) =
     ([example_pokemon], [])
   \<and> party_body raising_parse 3 (Some [0, 0, 0, 0]) ([], []) =
       ([], [PartySlotError 3 (DecodeError Checksum)])"
proof -
  have f: "\<not> truthy (Some [])" by simp
  have z: "is_empty_slot [0, 0, 0, 0] \<and> [0, 0, 0, 0 :: byte] \<noteq> []"
    by (simp add: is_empty_slot_def)
  note w1 = false_slot_is_skipped [OF f, of "party_parse example_env" 3 "([example_pokemon], [])"
      _ "[Some [7]]" "[Some [8]]"]
  note w2 = false_slot_is_skipped [OF f, of raising_parse 3 "([], [])" _ _ _ "[0, 0, 0, 0]"]
  have p: "parse_party (party_parse example_env) ([Some [7]] @ None # [Some [8]]) =
           ([example_pokemon, example_pokemon], [])"
    by (simp add: parse_party_def party_body_def example_env_def)
  from w2 z have r: "party_body raising_parse 3 (Some [0, 0, 0, 0]) ([], []) =
       ([], [PartySlotError 3 (DecodeError Checksum)])"
    by (simp add: raising_parse_def)
  from w1 p r show ?thesis by simp
qed

end
